theory Spec2Isabelle
  imports Main "HOL-Library.Sublist"
begin

section \<open>JavaScript strings and arrays\<close>

text \<open>
  File contents, paths and messages are JavaScript strings, modelled as \<open>string\<close>
  (a list of characters). The newline character is \<open>CHR 0x0A\<close>.
\<close>

text \<open>\<open>String.prototype.split\<close> with a separator of one character.\<close>

fun js_split :: "char \<Rightarrow> string \<Rightarrow> string list" where
  "js_split sep [] = [[]]"
| "js_split sep (c # cs) =
     (if c = sep then [] # js_split sep cs
      else (case js_split sep cs of
              [] \<Rightarrow> [[c]]
            | l # ls \<Rightarrow> (c # l) # ls))"

text \<open>\<open>Array.prototype.join\<close> with a separator of one character.\<close>

fun js_join :: "char \<Rightarrow> string list \<Rightarrow> string" where
  "js_join sep [] = []"
| "js_join sep [l] = l"
| "js_join sep (l # m # ls) = l @ sep # js_join sep (m # ls)"

text \<open>
  A relative index of \<open>slice\<close> and \<open>splice\<close>: a negative index counts from the
  end, and every index is clamped to \<open>0..len\<close>.
\<close>

definition rel_index :: "int \<Rightarrow> nat \<Rightarrow> nat" where
  "rel_index i len = (if i < 0 then nat (max (int len + i) 0) else min (nat i) len)"

text \<open>\<open>Array.prototype.slice(start, end)\<close>.\<close>

definition js_slice :: "'a list \<Rightarrow> int \<Rightarrow> int \<Rightarrow> 'a list" where
  "js_slice xs start fin =
     (let k = rel_index start (length xs);
          f = rel_index fin (length xs)
      in take (f - k) (drop k xs))"

text \<open>\<open>Array.prototype.splice(start, 0, item)\<close>: nothing deleted, one item inserted.\<close>

definition js_splice :: "'a list \<Rightarrow> int \<Rightarrow> 'a \<Rightarrow> 'a list" where
  "js_splice xs start item =
     (let k = rel_index start (length xs) in take k xs @ item # drop k xs)"

text \<open>\<open>String.prototype.indexOf\<close>: the position of the first occurrence.\<close>

fun js_indexOf :: "string \<Rightarrow> string \<Rightarrow> nat option" where
  "js_indexOf [] pat = (if pat = [] then Some 0 else None)"
| "js_indexOf (c # cs) pat =
     (if prefix pat (c # cs) then Some 0 else map_option Suc (js_indexOf cs pat))"

definition js_includes :: "string \<Rightarrow> string \<Rightarrow> bool" where
  "js_includes s pat = (js_indexOf s pat \<noteq> None)"

text \<open>The number of positions of \<open>s\<close> at which \<open>pat\<close> occurs.\<close>

definition occurrences :: "string \<Rightarrow> string \<Rightarrow> nat" where
  "occurrences s pat = length (filter (\<lambda>i. prefix pat (drop i s)) [0..<Suc (length s)])"

text \<open>
  \<open>GetSubstitution\<close> of ECMAScript for a string pattern (no capture groups): in the
  replacement text, \<open>$$\<close> stands for one dollar sign, \<open>$&\<close> for the matched text,
  \<open>$`\<close> for the text before the match and \<open>$'\<close> for the text after it; every
  other character stands for itself.
\<close>

fun getSubstitution :: "string \<Rightarrow> string \<Rightarrow> nat \<Rightarrow> string \<Rightarrow> string" where
  "getSubstitution matched str pos [] = []"
| "getSubstitution matched str pos [c] = [c]"
| "getSubstitution matched str pos (c # d # r) =
     (if c = CHR ''$'' \<and> d = CHR ''$'' then CHR ''$'' # getSubstitution matched str pos r
      else if c = CHR ''$'' \<and> d = CHR ''&'' then matched @ getSubstitution matched str pos r
      else if c = CHR ''$'' \<and> d = CHR 0x60 then take pos str @ getSubstitution matched str pos r
      else if c = CHR ''$'' \<and> d = CHR 0x27
        then drop (pos + length matched) str @ getSubstitution matched str pos r
      else c # getSubstitution matched str pos (d # r))"

text \<open>\<open>String.prototype.replace\<close> with a string pattern: the first occurrence only.\<close>

definition js_replace :: "string \<Rightarrow> string \<Rightarrow> string \<Rightarrow> string" where
  "js_replace s pat rep =
     (case js_indexOf s pat of
        None \<Rightarrow> s
      | Some pos \<Rightarrow> take pos s @ getSubstitution pat s pos rep @ drop (pos + length pat) s)"

text \<open>Template literals print \<open>undefined\<close> for a missing value and a number in decimal.\<close>

fun show_nat :: "nat \<Rightarrow> string" where
  "show_nat n =
     (if n < 10 then [''0123456789'' ! n]
      else show_nat (n div 10) @ [''0123456789'' ! (n mod 10)])"

definition show_int :: "int \<Rightarrow> string" where
  "show_int i = (if i < 0 then CHR ''-'' # show_nat (nat (- i)) else show_nat (nat i))"

definition str_of :: "string option \<Rightarrow> string" where
  "str_of v = (case v of None \<Rightarrow> ''undefined'' | Some s \<Rightarrow> s)"

definition num_of :: "int option \<Rightarrow> string" where
  "num_of v = (case v of None \<Rightarrow> ''undefined'' | Some i \<Rightarrow> show_int i)"

section \<open>The file system\<close>

text \<open>
  A resolved path is the list of its components below the root (\<open>[]\<close> is
  \<open>/\<close>). \<open>path.resolve\<close> makes a path absolute against the working directory
  and normalises it: empty components and \<open>.\<close> are dropped, \<open>..\<close> steps up.
\<close>

type_synonym fpath = "string list"

fun normalize :: "fpath \<Rightarrow> string list \<Rightarrow> fpath" where
  "normalize acc [] = acc"
| "normalize acc (s # ss) =
     (if s = [] \<or> s = ''.'' then normalize acc ss
      else if s = ''..'' then normalize (butlast acc) ss
      else normalize (acc @ [s]) ss)"

definition resolve :: "fpath \<Rightarrow> string \<Rightarrow> fpath" where
  "resolve wd p =
     (if p \<noteq> [] \<and> hd p = CHR ''/'' then normalize [] (js_split CHR ''/'' p)
      else normalize wd (js_split CHR ''/'' p))"

definition dirname :: "fpath \<Rightarrow> fpath" where
  "dirname p = butlast p"

text \<open>
  The file system is a tree of regular files and directories; the functions of
  Node's \<open>fs\<close> module that the tools call walk it from the root. A call that
  raises returns its error code on the left.
\<close>

datatype node = File string | Dir "string \<Rightarrow> node option"

datatype io_error = ENOENT | EISDIR | ENOTDIR | EEXIST | ERR_INVALID_ARG_TYPE

fun lookup :: "node \<Rightarrow> fpath \<Rightarrow> node option" where
  "lookup n [] = Some n"
| "lookup (File c) (s # ss) = None"
| "lookup (Dir m) (s # ss) = (case m s of None \<Rightarrow> None | Some n \<Rightarrow> lookup n ss)"

definition existsSync :: "node \<Rightarrow> fpath \<Rightarrow> bool" where
  "existsSync root p = (lookup root p \<noteq> None)"

definition readFileSync :: "node \<Rightarrow> fpath \<Rightarrow> io_error + string" where
  "readFileSync root p =
     (case lookup root p of
        None \<Rightarrow> Inl ENOENT
      | Some (Dir m) \<Rightarrow> Inl EISDIR
      | Some (File c) \<Rightarrow> Inr c)"

text \<open>What \<open>statSync(p).isFile()\<close> and \<open>statSync(p).isDirectory()\<close> would tell.\<close>

definition isFile :: "node \<Rightarrow> fpath \<Rightarrow> bool" where
  "isFile root p = (case lookup root p of Some (File c) \<Rightarrow> True | _ \<Rightarrow> False)"

definition isDirectory :: "node \<Rightarrow> fpath \<Rightarrow> bool" where
  "isDirectory root p = (case lookup root p of Some (Dir m) \<Rightarrow> True | _ \<Rightarrow> False)"

text \<open>\<open>mkdirSync(p, {recursive: true})\<close>: every missing directory on the way is made.\<close>

fun mkdirSync :: "node \<Rightarrow> fpath \<Rightarrow> io_error + node" where
  "mkdirSync (Dir m) [] = Inr (Dir m)"
| "mkdirSync (File c) [] = Inl EEXIST"
| "mkdirSync (File c) (s # ss) = Inl ENOTDIR"
| "mkdirSync (Dir m) (s # ss) =
     (case mkdirSync (case m s of None \<Rightarrow> Dir (\<lambda>x. None) | Some n \<Rightarrow> n) ss of
        Inl e \<Rightarrow> Inl e
      | Inr n' \<Rightarrow> Inr (Dir (m(s \<mapsto> n'))))"

text \<open>
  \<open>writeFileSync(p, text)\<close>: the file is created or overwritten; its directory must
  exist, and \<open>p\<close> itself must not be a directory.
\<close>

fun writeFileSync :: "node \<Rightarrow> fpath \<Rightarrow> string \<Rightarrow> io_error + node" where
  "writeFileSync (File c) [] t = Inr (File t)"
| "writeFileSync (Dir m) [] t = Inl EISDIR"
| "writeFileSync (File c) (s # ss) t = Inl ENOTDIR"
| "writeFileSync (Dir m) (s # ss) t =
     (case m s of
        None \<Rightarrow> (if ss = [] then Inr (Dir (m(s \<mapsto> File t))) else Inl ENOENT)
      | Some n \<Rightarrow>
          (case writeFileSync n ss t of
             Inl e \<Rightarrow> Inl e
           | Inr n' \<Rightarrow> Inr (Dir (m(s \<mapsto> n')))))"

text \<open>
  What a tool call can observe and change: the file system, the working directory of
  the process, and the list of the command lines handed to a shell so far.
\<close>

record world =
  fs :: node
  cwd :: fpath
  spawned :: "string list"

section \<open>The file editing tool (src/agent/tools.ts, getTextEditorTool)\<close>

text \<open>
  The argument object of \<open>execute\<close>; every field but \<open>command\<close> and \<open>path\<close> is
  optional. \<open>view_range\<close> is the pair of its first two elements.
\<close>

record edit_input =
  command :: string
  path :: string
  file_text :: "string option"
  old_str :: "string option"
  new_str :: "string option"
  insert_line :: "int option"
  insert_text :: "string option"
  view_range :: "(int \<times> int) option"

text \<open>A call of \<open>execute\<close> resolves to a string or is rejected with an exception.\<close>

datatype tool_outcome = Returned string | Raised io_error

definition maxCharacters :: nat where
  "maxCharacters = 50000"

definition view :: "edit_input \<Rightarrow> world \<Rightarrow> tool_outcome \<times> world" where
  "view inp w =
     (let fullPath = resolve (cwd w) (path inp) in
      if \<not> existsSync (fs w) fullPath
      then (Returned (''Error: File '' @ path inp @ '' not found''), w)
      else (case readFileSync (fs w) fullPath of
              Inl e \<Rightarrow> (Raised e, w)
            | Inr content \<Rightarrow>
                (case view_range inp of
                   Some (a, b) \<Rightarrow>
                     (Returned (js_join (CHR 0x0A)
                        (js_slice (js_split (CHR 0x0A) content) (a - 1) b)), w)
                 | None \<Rightarrow> (Returned content, w))))"

definition create :: "edit_input \<Rightarrow> world \<Rightarrow> tool_outcome \<times> world" where
  "create inp w =
     (let fullPath = resolve (cwd w) (path inp) in
      case mkdirSync (fs w) (dirname fullPath) of
        Inl e \<Rightarrow> (Raised e, w)
      | Inr fs1 \<Rightarrow>
          (case file_text inp of
             None \<Rightarrow> (Raised ERR_INVALID_ARG_TYPE, w\<lparr>fs := fs1\<rparr>)
           | Some t \<Rightarrow>
               (case writeFileSync fs1 fullPath t of
                  Inl e \<Rightarrow> (Raised e, w\<lparr>fs := fs1\<rparr>)
                | Inr fs2 \<Rightarrow> (Returned (''File created: '' @ path inp), w\<lparr>fs := fs2\<rparr>))))"

definition str_replace :: "edit_input \<Rightarrow> world \<Rightarrow> tool_outcome \<times> world" where
  "str_replace inp w =
     (let fullPath = resolve (cwd w) (path inp) in
      if \<not> existsSync (fs w) fullPath
      then (Returned (''Error: File '' @ path inp @ '' not found for str_replace''), w)
      else (case readFileSync (fs w) fullPath of
              Inl e \<Rightarrow> (Raised e, w)
            | Inr current \<Rightarrow>
                if \<not> js_includes current (str_of (old_str inp))
                then (Returned (''Error: old_str not found in '' @ path inp), w)
                else (let updated = js_replace current (str_of (old_str inp)) (str_of (new_str inp))
                      in case writeFileSync (fs w) fullPath updated of
                           Inl e \<Rightarrow> (Raised e, w)
                         | Inr fs1 \<Rightarrow> (Returned (''File updated: '' @ path inp), w\<lparr>fs := fs1\<rparr>))))"

definition insert_op :: "edit_input \<Rightarrow> world \<Rightarrow> tool_outcome \<times> world" where
  "insert_op inp w =
     (let fullPath = resolve (cwd w) (path inp) in
      if \<not> existsSync (fs w) fullPath
      then (Returned (''Error: File '' @ path inp @ '' not found for insert''), w)
      else (case readFileSync (fs w) fullPath of
              Inl e \<Rightarrow> (Raised e, w)
            | Inr content \<Rightarrow>
                (let lines = js_splice (js_split (CHR 0x0A) content)
                               (case insert_line inp of None \<Rightarrow> 0 | Some i \<Rightarrow> i)
                               (case insert_text inp of None \<Rightarrow> [] | Some t \<Rightarrow> t)
                 in case writeFileSync (fs w) fullPath (js_join (CHR 0x0A) lines) of
                      Inl e \<Rightarrow> (Raised e, w)
                    | Inr fs1 \<Rightarrow>
                        (Returned (''Text inserted at line '' @ num_of (insert_line inp)
                                   @ '' in '' @ path inp), w\<lparr>fs := fs1\<rparr>))))"

text \<open>The \<open>switch\<close> on \<open>command\<close> of the tool's \<open>execute\<close>.\<close>

definition getTextEditorTool_execute :: "edit_input \<Rightarrow> world \<Rightarrow> tool_outcome \<times> world" where
  "getTextEditorTool_execute inp w =
     (if command inp = ''view'' then view inp w
      else if command inp = ''create'' then create inp w
      else if command inp = ''str_replace'' then str_replace inp w
      else if command inp = ''insert'' then insert_op inp w
      else (Returned (''Unknown command: '' @ command inp), w))"

section \<open>The command execution tool (src/agent/tools.ts, getBashTool)\<close>

text \<open>
  What the operating system does with a command line: the shell cannot be started, or
  the child runs for some milliseconds and ends (by itself, or killed by Node) with an
  exit status (\<open>None\<close> when a signal ended it); the two texts are what Node has
  read of its standard output and of its standard error by then. The command may
  change the file system.
\<close>

datatype proc =
    SpawnFailure string
  | Exited "nat option" nat string string

type_synonym shell = "string \<Rightarrow> node \<Rightarrow> proc \<times> node"

text \<open>The error object that \<open>execSync\<close> throws.\<close>

record exec_error =
  message :: string
  err_stdout :: "string option"
  err_stderr :: "string option"

text \<open>
  \<open>child_process.execSync(command, {timeout, encoding: "utf-8", maxBuffer})\<close>: the
  standard output of the child when it ends with status 0 within the timeout and
  within the buffer limit, an exception otherwise. The buffer limit counts what is
  read of both streams together; when it is passed the child is killed at once, so this
  error comes before a timeout, and the error object carries all that was read.
\<close>

definition execSync ::
  "shell \<Rightarrow> string \<Rightarrow> nat \<Rightarrow> nat \<Rightarrow> world \<Rightarrow> (exec_error + string) \<times> world" where
  "execSync sh cmd timeout maxBuffer w =
     (case sh cmd (fs w) of (pr, fs') \<Rightarrow>
        (let w' = w\<lparr>fs := fs', spawned := spawned w @ [cmd]\<rparr> in
         case pr of
           SpawnFailure msg \<Rightarrow>
             (Inl \<lparr>message = msg, err_stdout = None, err_stderr = None\<rparr>, w')
         | Exited status ms out err \<Rightarrow>
             if maxBuffer < length out + length err
             then (Inl \<lparr>message = ''spawnSync /bin/sh ENOBUFS'',
                        err_stdout = Some out, err_stderr = Some err\<rparr>, w')
             else if timeout < ms
             then (Inl \<lparr>message = ''spawnSync /bin/sh ETIMEDOUT'',
                        err_stdout = Some out, err_stderr = Some err\<rparr>, w')
             else if status \<noteq> Some 0
             then (Inl \<lparr>message = ''Command failed: '' @ cmd
                                   @ (if err \<noteq> [] then CHR 0x0A # err else []),
                        err_stdout = Some out, err_stderr = Some err\<rparr>, w')
             else (Inr out, w')))"

text \<open>\<open>v || ""\<close> for an optional string.\<close>

definition or_empty :: "string option \<Rightarrow> string" where
  "or_empty v = (case v of None \<Rightarrow> [] | Some s \<Rightarrow> s)"

text \<open>
  The argument object of the tool's \<open>execute\<close>: the field \<open>command\<close> (here
  \<open>shell_command\<close>) and the optional \<open>restart\<close>.
\<close>

record bash_input =
  shell_command :: string
  restart :: "bool option"

definition getBashTool_execute :: "shell \<Rightarrow> bash_input \<Rightarrow> world \<Rightarrow> tool_outcome \<times> world" where
  "getBashTool_execute sh inp w =
     (if restart inp = Some True then (Returned ''Bash session restarted'', w)
      else (case execSync sh (shell_command inp) 30000 (1024 * 1024) w of
              (Inr result, w') \<Rightarrow>
                (Returned (if result \<noteq> [] then result
                           else ''Command executed successfully (no output)''), w')
            | (Inl error, w') \<Rightarrow>
                (Returned (''Error: '' @ message error
                           @ CHR 0x0A # ''Stderr: '' @ or_empty (err_stderr error)
                           @ CHR 0x0A # ''Stdout: '' @ or_empty (err_stdout error)), w')))"

section \<open>The agent loop\<close>

text \<open>
  Modelled from the spec: the loop that drives the reasoning engine and the two tools
  is \<open>generateText\<close> / \<open>streamText\<close> with \<open>stopWhen: stepCountIs(20)\<close> of the
  \<open>ai\<close> package, which is not part of the sources; the definitions of this section
  follow the state machine of the specification (section 4.3) and its data model
  (section 3). The result object is the package's: \<open>text\<close> and \<open>usage\<close> are those
  of the last step, \<open>totalUsage\<close> is the sum over the steps, and \<open>steps\<close> is the
  list of the completed steps.
\<close>

datatype tool_call = Edit edit_input | Execute bash_input

text \<open>
  Modelled from the spec: a ToolResult \<open>{callId, output, isError}\<close> (section 3; the
  field \<open>output\<close> is \<open>output_text\<close> here), which the orchestrator of the
  \<open>ai\<close> package makes of a tool call. A tool's \<open>execute\<close> gives the orchestrator
  a bare string or an exception and nothing else: a returned string becomes a result
  with \<open>isError = False\<close>, an exception a result with \<open>isError = True\<close>.
\<close>

record tool_result =
  callId :: nat
  output_text :: string
  isError :: bool

definition error_text :: "io_error \<Rightarrow> string" where
  "error_text e =
     (case e of ENOENT \<Rightarrow> ''ENOENT'' | EISDIR \<Rightarrow> ''EISDIR'' | ENOTDIR \<Rightarrow> ''ENOTDIR''
      | EEXIST \<Rightarrow> ''EEXIST'' | ERR_INVALID_ARG_TYPE \<Rightarrow> ''ERR_INVALID_ARG_TYPE'')"

definition to_result :: "nat \<Rightarrow> tool_outcome \<Rightarrow> tool_result" where
  "to_result i r =
     (case r of
        Returned s \<Rightarrow> \<lparr>callId = i, output_text = s, isError = False\<rparr>
      | Raised e \<Rightarrow> \<lparr>callId = i, output_text = error_text e, isError = True\<rparr>)"



text \<open>
  Modelled from the spec: the token usage of section 6, and the entries of the
  transcript (section 3).
\<close>

record usage =
  promptTokens :: nat
  completionTokens :: nat
  totalTokens :: nat




text \<open>
  Modelled from the spec: one answer of the reasoning engine (sections 1 and 9): its text, its token usage and the tool calls it
  requests (none: plain text, the engine is done). The engine maps the transcript to an
  answer, or fails with a message.
\<close>

record turn =
  assistantText :: string
  turnUsage :: usage
  toolCalls :: "tool_call list"












text \<open>
  Modelled from the spec: the streaming variant of section 4.3 (\<open>streamText\<close>). The
  same turns are taken, but nothing is aggregated on the way: the loop produces a
  stream of parts, a text part and a step end for every completed turn, and an error
  part when the engine fails, after which the stream ends.
\<close>

datatype event = TextPart string | StepFinish turn | ErrorPart string





fun streamErrors :: "event list \<Rightarrow> string list" where
  "streamErrors [] = []"
| "streamErrors (TextPart s # evs) = streamErrors evs"
| "streamErrors (StepFinish t # evs) = streamErrors evs"
| "streamErrors (ErrorPart e # evs) = e # streamErrors evs"

section \<open>The request handler (src/api/generate.ts and its streaming variant)\<close>









section \<open>Properties of the file system operations\<close>

lemma isFile_Nil: "isFile n [] = (\<exists>c. n = File c)"
  by (cases n) (simp_all add: isFile_def)

lemma isDirectory_Nil: "isDirectory n [] = (\<exists>m. n = Dir m)"
  by (cases n) (simp_all add: isDirectory_def)

lemma mkdirSync_succeeds:
  "\<forall>q. prefix q p \<longrightarrow> \<not> isFile n q \<Longrightarrow> \<exists>n'. mkdirSync n p = Inr n'"
proof (induction p arbitrary: n)
  case Nil
  then have "\<not> isFile n []" by simp
  then show ?case by (cases n) (simp_all add: isFile_def)
next
  case (Cons s ss)
  from Cons.prems have "\<not> isFile n []" by simp
  then obtain m where n: "n = Dir m" by (cases n) (simp_all add: isFile_def)
  define k where "k = (case m s of None \<Rightarrow> Dir (\<lambda>x. None) | Some n \<Rightarrow> n)"
  have "\<forall>q. prefix q ss \<longrightarrow> \<not> isFile k q"
  proof (intro allI impI)
    fix q assume q: "prefix q ss"
    then have "\<not> isFile n (s # q)" using Cons.prems by simp
    then show "\<not> isFile k q"
      using q by (cases "m s"; cases q) (auto simp: n k_def isFile_def)
  qed
  from Cons.IH [OF this] obtain k' where "mkdirSync k ss = Inr k'" by blast
  then show ?case by (simp add: n k_def)
qed

lemma mkdirSync_frame:
  "mkdirSync n p = Inr n' \<Longrightarrow> \<not> prefix q p \<Longrightarrow> lookup n' q = lookup n q"
proof (induction p arbitrary: n n' q)
  case Nil
  then show ?case by (cases n) simp_all
next
  case (Cons s ss)
  from Cons.prems(1) obtain m where n: "n = Dir m" by (cases n) simp_all
  define k where "k = (case m s of None \<Rightarrow> Dir (\<lambda>x. None) | Some n \<Rightarrow> n)"
  from Cons.prems(1) obtain k' where k': "mkdirSync k ss = Inr k'" and n': "n' = Dir (m(s \<mapsto> k'))"
    by (auto simp: n k_def split: sum.splits)
  from Cons.prems(2) obtain r rs where q: "q = r # rs" by (cases q) simp_all
  show ?case
  proof (cases "r = s")
    case True
    with Cons.prems(2) q have np: "\<not> prefix rs ss" by simp
    then have rs: "rs \<noteq> []" by auto
    have "lookup k' rs = lookup k rs" using Cons.IH [OF k' np] .
    moreover have "lookup k rs = (case m s of None \<Rightarrow> None | Some n \<Rightarrow> lookup n rs)"
      using rs by (cases "m s"; cases rs) (simp_all add: k_def)
    ultimately show ?thesis by (simp add: n n' q True)
  next
    case False
    then show ?thesis by (simp add: n n' q)
  qed
qed

lemma mkdirSync_dirs:
  "mkdirSync n p = Inr n' \<Longrightarrow> prefix q p \<Longrightarrow> isDirectory n' q"
proof (induction p arbitrary: n n' q)
  case Nil
  then show ?case by (cases n) (auto simp: isDirectory_def)
next
  case (Cons s ss)
  from Cons.prems(1) obtain m where n: "n = Dir m" by (cases n) simp_all
  define k where "k = (case m s of None \<Rightarrow> Dir (\<lambda>x. None) | Some n \<Rightarrow> n)"
  from Cons.prems(1) obtain k' where k': "mkdirSync k ss = Inr k'" and n': "n' = Dir (m(s \<mapsto> k'))"
    by (auto simp: n k_def split: sum.splits)
  show ?case
  proof (cases q)
    case Nil
    then show ?thesis by (simp add: n' isDirectory_def)
  next
    case (Cons r rs)
    with Cons.prems(2) have "r = s" "prefix rs ss" by simp_all
    then have "isDirectory k' rs" using Cons.IH [OF k'] by blast
    then show ?thesis using \<open>r = s\<close> by (simp add: n' Cons isDirectory_def)
  qed
qed

lemma strict_prefix_single: "strict_prefix q [s] \<longleftrightarrow> q = []"
  by (cases q) auto

lemma writeFileSync_succeeds:
  "p \<noteq> [] \<Longrightarrow> isDirectory n (butlast p) \<Longrightarrow> \<not> isDirectory n p \<Longrightarrow>
   \<exists>n'. writeFileSync n p t = Inr n' \<and> lookup n' p = Some (File t)
        \<and> (\<forall>q. strict_prefix q p \<longrightarrow> isDirectory n' q)"
proof (induction p arbitrary: n)
  case Nil
  then show ?case by simp
next
  case (Cons s ss)
  show ?case
  proof (cases ss)
    case Nil
    with Cons.prems(2) obtain m where n: "n = Dir m" by (auto simp: isDirectory_Nil)
    show ?thesis
    proof (cases "m s")
      case None
      then show ?thesis by (simp add: n Nil isDirectory_def strict_prefix_single)
    next
      case (Some k)
      with Cons.prems(3) obtain c where "k = File c"
        by (cases k) (simp_all add: n Nil isDirectory_def)
      then show ?thesis using Some by (simp add: n Nil isDirectory_def strict_prefix_single)
    qed
  next
    case (Cons s' ss')
    from Cons.prems(2) obtain m where n: "n = Dir m"
      by (cases n) (simp_all add: isDirectory_def Cons)
    from Cons.prems(2) obtain k where ms: "m s = Some k" and kd: "isDirectory k (butlast ss)"
      by (cases "m s") (simp_all add: n isDirectory_def Cons)
    from Cons.prems(3) have "\<not> isDirectory k ss" by (simp add: n ms isDirectory_def)
    from Cons.IH [OF _ kd this] obtain k' where
      w: "writeFileSync k ss t = Inr k'" and l: "lookup k' ss = Some (File t)"
      and d: "\<forall>q. strict_prefix q ss \<longrightarrow> isDirectory k' q"
      using Cons by auto
    have "\<forall>q. strict_prefix q (s # ss) \<longrightarrow> isDirectory (Dir (m(s \<mapsto> k'))) q"
    proof (intro allI impI)
      fix q assume "strict_prefix q (s # ss)"
      then show "isDirectory (Dir (m(s \<mapsto> k'))) q"
        using d by (cases q) (auto simp: isDirectory_def)
    qed
    then show ?thesis using w l by (simp add: n ms)
  qed
qed

lemma mkdirSync_fails:
  "prefix q p \<Longrightarrow> isFile n q \<Longrightarrow> \<exists>e. mkdirSync n p = Inl e"
proof (induction p arbitrary: n q)
  case Nil
  then obtain c where "n = File c" by (auto simp: isFile_Nil)
  then show ?case by simp
next
  case (Cons s ss)
  show ?case
  proof (cases q)
    case Nil
    with Cons.prems(2) obtain c where "n = File c" by (auto simp: isFile_Nil)
    then show ?thesis by simp
  next
    case (Cons r rs)
    with Cons.prems(1) have rs: "r = s" "prefix rs ss" by simp_all
    from Cons.prems(2) obtain m where n: "n = Dir m"
      by (cases n) (simp_all add: isFile_def Cons)
    from Cons.prems(2) obtain k where ms: "m s = Some k" and kf: "isFile k rs"
      by (cases "m s") (simp_all add: n isFile_def Cons rs)
    from Cons.IH [OF rs(2) kf] obtain e where "mkdirSync k ss = Inl e" by blast
    then show ?thesis by (simp add: n ms)
  qed
qed

lemma writeFileSync_on_directory:
  "isDirectory n p \<Longrightarrow> \<exists>e. writeFileSync n p t = Inl e"
proof (induction p arbitrary: n)
  case Nil
  then obtain m where "n = Dir m" by (auto simp: isDirectory_Nil)
  then show ?case by simp
next
  case (Cons s ss)
  from Cons.prems obtain m where n: "n = Dir m"
    by (cases n) (simp_all add: isDirectory_def)
  from Cons.prems obtain k where ms: "m s = Some k" and kd: "isDirectory k ss"
    by (cases "m s") (simp_all add: n isDirectory_def)
  from Cons.IH [OF kd] obtain e where "writeFileSync k ss t = Inl e" by blast
  then show ?case by (simp add: n ms)
qed

lemma strict_prefix_butlast:
  "strict_prefix q p \<Longrightarrow> prefix q (butlast p)"
  by (cases p rule: rev_cases) (auto simp: strict_prefix_def)

section \<open>The file editing tool: view and create\<close>

text \<open>
  Claim C1, as the code has it. A \<open>view\<close> of a path at which nothing exists returns
  the text \<open>Error: File <path> not found\<close> and changes nothing. A \<open>create\<close>
  with text \<open>t\<close> succeeds whenever the resolved path is not the root, is not an
  existing directory and has no regular file among its proper ancestors: it returns
  \<open>File created: <path>\<close>, every proper ancestor is a directory afterwards, an
  existing file is overwritten, and a following \<open>view\<close> of the same path (without
  \<open>view_range\<close>) returns exactly \<open>t\<close>. On every other path (the root, an
  existing directory, a path with a regular file among its proper ancestors)
  \<open>create\<close> raises an I/O fault.
\<close>

theorem create_then_view:
  "(command vi = ''view'' \<and> \<not> existsSync (fs w) (resolve (cwd w) (path vi)) \<longrightarrow>
      getTextEditorTool_execute vi w = (Returned (''Error: File '' @ path vi @ '' not found''), w))
   \<and> (command ci = ''create'' \<and> file_text ci = Some t
        \<and> resolve (cwd w) (path ci) \<noteq> []
        \<and> (\<forall>q. strict_prefix q (resolve (cwd w) (path ci)) \<longrightarrow> \<not> isFile (fs w) q)
        \<and> \<not> isDirectory (fs w) (resolve (cwd w) (path ci))
        \<and> command vi = ''view'' \<and> path vi = path ci \<and> view_range vi = None \<longrightarrow>
      (\<exists>w'. getTextEditorTool_execute ci w = (Returned (''File created: '' @ path ci), w')
          \<and> (\<forall>q. strict_prefix q (resolve (cwd w) (path ci)) \<longrightarrow> isDirectory (fs w') q)
          \<and> getTextEditorTool_execute vi w' = (Returned t, w')))
   \<and> (command ci = ''create'' \<and> file_text ci = Some t
        \<and> (resolve (cwd w) (path ci) = []
             \<or> (\<exists>q. strict_prefix q (resolve (cwd w) (path ci)) \<and> isFile (fs w) q)
             \<or> isDirectory (fs w) (resolve (cwd w) (path ci))) \<longrightarrow>
      (\<exists>e. fst (getTextEditorTool_execute ci w) = Raised e))"
proof (intro conjI impI)
  assume "command vi = ''view'' \<and> \<not> existsSync (fs w) (resolve (cwd w) (path vi))"
  then show "getTextEditorTool_execute vi w = (Returned (''Error: File '' @ path vi @ '' not found''), w)"
    by (simp add: getTextEditorTool_execute_def view_def)
next
  define p where "p = resolve (cwd w) (path ci)"
  assume "command ci = ''create'' \<and> file_text ci = Some t
        \<and> resolve (cwd w) (path ci) \<noteq> []
        \<and> (\<forall>q. strict_prefix q (resolve (cwd w) (path ci)) \<longrightarrow> \<not> isFile (fs w) q)
        \<and> \<not> isDirectory (fs w) (resolve (cwd w) (path ci))
        \<and> command vi = ''view'' \<and> path vi = path ci \<and> view_range vi = None"
  then have cc: "command ci = ''create''" and ft: "file_text ci = Some t" and pn: "p \<noteq> []"
    and anc: "\<forall>q. strict_prefix q p \<longrightarrow> \<not> isFile (fs w) q" and nd: "\<not> isDirectory (fs w) p"
    and cv: "command vi = ''view''" and pv: "path vi = path ci" and vr: "view_range vi = None"
    by (simp_all add: p_def)
  have sp: "strict_prefix (butlast p) p" using pn
    by (cases p rule: rev_cases) (simp_all add: strict_prefix_def)
  have "\<forall>q. prefix q (butlast p) \<longrightarrow> \<not> isFile (fs w) q"
  proof (intro allI impI)
    fix q assume "prefix q (butlast p)"
    then have "strict_prefix q p" using sp by (rule prefix_order.le_less_trans)
    with anc show "\<not> isFile (fs w) q" by blast
  qed
  from mkdirSync_succeeds [OF this] obtain fs1 where mk: "mkdirSync (fs w) (butlast p) = Inr fs1"
    by blast
  have d1: "isDirectory fs1 (butlast p)" using mkdirSync_dirs [OF mk] by simp
  have "\<not> prefix p (butlast p)" using sp by auto
  from mkdirSync_frame [OF mk this] nd have nd1: "\<not> isDirectory fs1 p"
    by (simp add: isDirectory_def)
  from writeFileSync_succeeds [OF pn d1 nd1, of t] obtain fs2 where
    wr: "writeFileSync fs1 p t = Inr fs2" and lk: "lookup fs2 p = Some (File t)"
    and dirs: "\<forall>q. strict_prefix q p \<longrightarrow> isDirectory fs2 q" by blast
  have c: "getTextEditorTool_execute ci w = (Returned (''File created: '' @ path ci), w\<lparr>fs := fs2\<rparr>)"
    using mk wr by (simp add: getTextEditorTool_execute_def create_def cc ft dirname_def p_def [symmetric])
  have v: "getTextEditorTool_execute vi (w\<lparr>fs := fs2\<rparr>) = (Returned t, w\<lparr>fs := fs2\<rparr>)"
    using lk by (simp add: getTextEditorTool_execute_def view_def cv pv vr existsSync_def
        readFileSync_def p_def [symmetric])
  show "\<exists>w'. getTextEditorTool_execute ci w = (Returned (''File created: '' @ path ci), w')
          \<and> (\<forall>q. strict_prefix q (resolve (cwd w) (path ci)) \<longrightarrow> isDirectory (fs w') q)
          \<and> getTextEditorTool_execute vi w' = (Returned t, w')"
    using c v dirs by (intro exI [of _ "w\<lparr>fs := fs2\<rparr>"]) (simp add: p_def)
next
  define p where "p = resolve (cwd w) (path ci)"
  assume "command ci = ''create'' \<and> file_text ci = Some t
        \<and> (resolve (cwd w) (path ci) = []
             \<or> (\<exists>q. strict_prefix q (resolve (cwd w) (path ci)) \<and> isFile (fs w) q)
             \<or> isDirectory (fs w) (resolve (cwd w) (path ci)))"
  then have cc: "command ci = ''create''" and ft: "file_text ci = Some t"
    and bad: "p = [] \<or> (\<exists>q. strict_prefix q p \<and> isFile (fs w) q) \<or> isDirectory (fs w) p"
    by (simp_all add: p_def)
  have ex: "getTextEditorTool_execute ci w = create ci w"
    by (simp add: getTextEditorTool_execute_def cc)
  show "\<exists>e. fst (getTextEditorTool_execute ci w) = Raised e"
  proof (cases "mkdirSync (fs w) (butlast p)")
    case (Inl e)
    then show ?thesis by (simp add: ex create_def dirname_def p_def [symmetric])
  next
    case (Inr fs1)
    have nofile: "\<not> (\<exists>q. strict_prefix q p \<and> isFile (fs w) q)"
    proof
      assume "\<exists>q. strict_prefix q p \<and> isFile (fs w) q"
      then obtain q where "strict_prefix q p" and f: "isFile (fs w) q" by blast
      then have "prefix q (butlast p)" by (simp add: strict_prefix_butlast)
      from mkdirSync_fails [OF this f] Inr show False by simp
    qed
    have "isDirectory fs1 p"
    proof (cases "p = []")
      case True
      with mkdirSync_dirs [OF Inr, of "[]"] show ?thesis by simp
    next
      case False
      with bad nofile have d: "isDirectory (fs w) p" by blast
      have "\<not> prefix p (butlast p)" using False
        by (cases p rule: rev_cases) simp_all
      from mkdirSync_frame [OF Inr this] d show ?thesis by (simp add: isDirectory_def)
    qed
    from writeFileSync_on_directory [OF this, of t] obtain e where
      "writeFileSync fs1 p t = Inl e" by blast
    then show ?thesis using Inr
      by (simp add: ex create_def dirname_def ft p_def [symmetric])
  qed
qed

text \<open>
  An instance: in an empty file system with working directory \<open>/app\<close>, viewing
  \<open>out/a.txt\<close> reports that it is not found; creating it with \<open>hello\<close> makes
  \<open>/app/out\<close> on the way, and viewing it then returns \<open>hello\<close>.
\<close>

theorem create_then_view_witness:
  "\<not> existsSync (Dir (\<lambda>x. None)) (resolve [''app''] ''out/a.txt'')
   \<and> \<not> (\<exists>q. strict_prefix q (resolve [''app''] ''out/a.txt'') \<and> isFile (Dir (\<lambda>x. None)) q)
   \<and> \<not> isDirectory (Dir (\<lambda>x. None)) (resolve [''app''] ''out/a.txt'')
   \<and> getTextEditorTool_execute
        \<lparr>command = ''view'', path = ''out/a.txt'', file_text = None, old_str = None,
         new_str = None, insert_line = None, insert_text = None, view_range = None\<rparr>
        \<lparr>fs = Dir (\<lambda>x. None), cwd = [''app''], spawned = []\<rparr>
       = (Returned ''Error: File out/a.txt not found'',
          \<lparr>fs = Dir (\<lambda>x. None), cwd = [''app''], spawned = []\<rparr>)
   \<and> (\<exists>w'. getTextEditorTool_execute
        \<lparr>command = ''create'', path = ''out/a.txt'', file_text = Some ''hello'', old_str = None,
         new_str = None, insert_line = None, insert_text = None, view_range = None\<rparr>
        \<lparr>fs = Dir (\<lambda>x. None), cwd = [''app''], spawned = []\<rparr>
       = (Returned ''File created: out/a.txt'', w')
       \<and> getTextEditorTool_execute
        \<lparr>command = ''view'', path = ''out/a.txt'', file_text = None, old_str = None,
         new_str = None, insert_line = None, insert_text = None, view_range = None\<rparr> w'
       = (Returned ''hello'', w'))"
proof -
  let ?vi = "\<lparr>command = ''view'', path = ''out/a.txt'', file_text = None, old_str = None,
         new_str = None, insert_line = None, insert_text = None, view_range = None\<rparr>"
  let ?ci = "\<lparr>command = ''create'', path = ''out/a.txt'', file_text = Some ''hello'', old_str = None,
         new_str = None, insert_line = None, insert_text = None, view_range = None\<rparr>"
  let ?w = "\<lparr>fs = Dir (\<lambda>x. None), cwd = [''app''], spawned = []\<rparr>"
  have r: "resolve [''app''] ''out/a.txt'' = [''app'', ''out'', ''a.txt'']"
    by (simp add: resolve_def)
  have h1: "\<not> existsSync (Dir (\<lambda>x. None)) (resolve [''app''] ''out/a.txt'')"
    by (simp add: r existsSync_def)
  have h2: "\<forall>q. strict_prefix q (resolve [''app''] ''out/a.txt'') \<longrightarrow> \<not> isFile (Dir (\<lambda>x. None)) q"
  proof (intro allI impI)
    fix q show "\<not> isFile (Dir (\<lambda>x. None)) q" by (cases q) (simp_all add: isFile_def)
  qed
  have h3: "\<not> isDirectory (Dir (\<lambda>x. None)) (resolve [''app''] ''out/a.txt'')"
    by (simp add: r isDirectory_def)
  from create_then_view [of ?vi ?w ?ci "''hello''"]
  have a: "getTextEditorTool_execute ?vi ?w = (Returned (''Error: File '' @ path ?vi @ '' not found''), ?w)"
    using h1 by simp
  from create_then_view [of ?vi ?w ?ci "''hello''"]
  have "\<exists>w'. getTextEditorTool_execute ?ci ?w = (Returned (''File created: '' @ path ?ci), w')
          \<and> (\<forall>q. strict_prefix q (resolve (cwd ?w) (path ?ci)) \<longrightarrow> isDirectory (fs w') q)
          \<and> getTextEditorTool_execute ?vi w' = (Returned ''hello'', w')"
    using h2 h3 r by simp
  then have b: "\<exists>w'. getTextEditorTool_execute ?ci ?w = (Returned ''File created: out/a.txt'', w')
          \<and> getTextEditorTool_execute ?vi w' = (Returned ''hello'', w')"
    by auto
  have h2': "\<not> (\<exists>q. strict_prefix q (resolve [''app''] ''out/a.txt'') \<and> isFile (Dir (\<lambda>x. None)) q)"
    using h2 by blast
  show ?thesis using h1 h2' h3 a b by simp
qed

text \<open>
  \<open>create\<close> does not succeed on every path: where the path names an existing
  directory, \<open>writeFileSync\<close> raises \<open>EISDIR\<close> and the call is rejected.
\<close>

theorem create_on_directory_counterexample:
  "fst (getTextEditorTool_execute
        \<lparr>command = ''create'', path = ''out'', file_text = Some ''hello'', old_str = None,
         new_str = None, insert_line = None, insert_text = None, view_range = None\<rparr>
        \<lparr>fs = Dir ((\<lambda>x. None)(''out'' \<mapsto> Dir (\<lambda>x. None))), cwd = [], spawned = []\<rparr>)
   = Raised EISDIR"
  by (simp add: getTextEditorTool_execute_def create_def resolve_def dirname_def)


section \<open>The command execution tool\<close>

text \<open>
  Claim C8. When \<open>restart\<close> is set, the tool returns the confirmation
  \<open>Bash session restarted\<close> whatever the shell would do with the command: nothing
  is handed to a shell, and the file system and the rest of the state are as before.
\<close>

theorem restart_runs_nothing:
  "restart inp = Some True \<Longrightarrow>
   getBashTool_execute sh inp w = (Returned ''Bash session restarted'', w)
   \<and> spawned (snd (getBashTool_execute sh inp w)) = spawned w
   \<and> fs (snd (getBashTool_execute sh inp w)) = fs w"
  by (simp add: getBashTool_execute_def)

text \<open>
  An instance: a command that would empty the file system, sent with \<open>restart\<close>
  set, leaves it as it was.
\<close>

theorem restart_runs_nothing_witness:
  "getBashTool_execute (\<lambda>c f. (Exited (Some 0) 1 ''gone'' [], Dir (\<lambda>x. None)))
     \<lparr>shell_command = ''rm -rf generated'', restart = Some True\<rparr>
     \<lparr>fs = Dir ((\<lambda>x. None)(''generated'' \<mapsto> Dir (\<lambda>x. None))), cwd = [], spawned = []\<rparr>
   = (Returned ''Bash session restarted'',
      \<lparr>fs = Dir ((\<lambda>x. None)(''generated'' \<mapsto> Dir (\<lambda>x. None))), cwd = [], spawned = []\<rparr>)"
  using restart_runs_nothing
    [of "\<lparr>shell_command = ''rm -rf generated'', restart = Some True\<rparr>"
        "\<lambda>c f. (Exited (Some 0) 1 ''gone'' [], Dir (\<lambda>x. None))"
        "\<lparr>fs = Dir ((\<lambda>x. None)(''generated'' \<mapsto> Dir (\<lambda>x. None))), cwd = [], spawned = []\<rparr>"]
  by simp

text \<open>
  Claim C10, as the code has it. A command that ends with status 0 within the timeout
  of 30000 ms, writes nothing to its standard output and at most 1 MB to its standard
  error gives the fixed text \<open>Command executed successfully (no output)\<close>; and
  whatever the command does, the text that the tool returns is never empty.
\<close>

theorem bash_no_output_message:
  "(restart inp \<noteq> Some True
      \<and> sh (shell_command inp) (fs w) = (Exited (Some 0) ms [] err, fs')
      \<and> ms \<le> 30000 \<and> length err \<le> 1024 * 1024 \<longrightarrow>
    getBashTool_execute sh inp w
      = (Returned ''Command executed successfully (no output)'',
         w\<lparr>fs := fs', spawned := spawned w @ [shell_command inp]\<rparr>))
   \<and> (\<exists>s. fst (getBashTool_execute sh inp w) = Returned s \<and> s \<noteq> [])"
proof (intro conjI impI)
  show "\<exists>s. fst (getBashTool_execute sh inp w) = Returned s \<and> s \<noteq> []"
    by (auto simp: getBashTool_execute_def split: prod.splits sum.splits)
qed (auto simp: getBashTool_execute_def execSync_def)

text \<open>
  An instance: \<open>mkdir -p out\<close> prints nothing and ends with status 0.
\<close>

theorem bash_no_output_message_witness:
  "getBashTool_execute (\<lambda>c f. (Exited (Some 0) 12 [] ''warning'', f))
     \<lparr>shell_command = ''mkdir -p out'', restart = None\<rparr>
     \<lparr>fs = Dir (\<lambda>x. None), cwd = [], spawned = []\<rparr>
   = (Returned ''Command executed successfully (no output)'',
      \<lparr>fs = Dir (\<lambda>x. None), cwd = [], spawned = [''mkdir -p out'']\<rparr>)"
  using bash_no_output_message
    [of "\<lparr>shell_command = ''mkdir -p out'', restart = None\<rparr>"
        "\<lambda>c f. (Exited (Some 0) 12 [] ''warning'', f)"
        "\<lparr>fs = Dir (\<lambda>x. None), cwd = [], spawned = []\<rparr>" 12 "''warning''" "Dir (\<lambda>x. None)"]
  by simp

text \<open>
  Status 0 and an empty standard output do not always give the fixed text: the buffer
  limit counts the standard error too, so a command that prints nothing, writes
  1048577 characters to its standard error and ends with status 0 gets the
  \<open>ENOBUFS\<close> error text.
\<close>

theorem bash_no_output_overflow_counterexample:
  "fst (getBashTool_execute (\<lambda>c f. (Exited (Some 0) 5 [] (replicate 1048577 (CHR ''e'')), f))
     \<lparr>shell_command = ''make'', restart = None\<rparr>
     \<lparr>fs = Dir (\<lambda>x. None), cwd = [], spawned = []\<rparr>)
   = Returned (''Error: spawnSync /bin/sh ENOBUFS''
               @ CHR 0x0A # ''Stderr: '' @ replicate 1048577 (CHR ''e'')
               @ CHR 0x0A # ''Stdout: '')
   \<and> fst (getBashTool_execute (\<lambda>c f. (Exited (Some 0) 5 [] (replicate 1048577 (CHR ''e'')), f))
     \<lparr>shell_command = ''make'', restart = None\<rparr>
     \<lparr>fs = Dir (\<lambda>x. None), cwd = [], spawned = []\<rparr>)
   \<noteq> Returned ''Command executed successfully (no output)''"
  by (simp add: getBashTool_execute_def execSync_def or_empty_def)

text \<open>
  Claim C7, as the code has it. A command that ends with status 0 within the timeout of
  30000 ms, whose standard output and standard error together are within the limit of
  1 MB, and that writes a non-empty standard output, returns that output unchanged, as
  an ordinary result (\<open>isError = False\<close>).
\<close>

theorem bash_success_verbatim:
  "restart inp \<noteq> Some True \<Longrightarrow>
   sh (shell_command inp) (fs w) = (Exited (Some 0) ms out err, fs') \<Longrightarrow>
   ms \<le> 30000 \<Longrightarrow> length out + length err \<le> 1024 * 1024 \<Longrightarrow>
   out \<noteq> [] \<Longrightarrow>
   fst (getBashTool_execute sh inp w) = Returned out
   \<and> output_text (to_result i (fst (getBashTool_execute sh inp w))) = out
   \<and> \<not> isError (to_result i (fst (getBashTool_execute sh inp w)))"
  by (simp add: getBashTool_execute_def execSync_def to_result_def)

text \<open>
  An instance: \<open>echo hello\<close>.
\<close>

theorem bash_success_verbatim_witness:
  "fst (getBashTool_execute (\<lambda>c f. (Exited (Some 0) 40 ''hello'' [], f))
     \<lparr>shell_command = ''echo hello'', restart = None\<rparr>
     \<lparr>fs = Dir (\<lambda>x. None), cwd = [], spawned = []\<rparr>) = Returned ''hello''
   \<and> \<not> isError (to_result 0 (fst (getBashTool_execute (\<lambda>c f. (Exited (Some 0) 40 ''hello'' [], f))
     \<lparr>shell_command = ''echo hello'', restart = None\<rparr>
     \<lparr>fs = Dir (\<lambda>x. None), cwd = [], spawned = []\<rparr>)))"
  using bash_success_verbatim
    [of "\<lparr>shell_command = ''echo hello'', restart = None\<rparr>"
        "\<lambda>c f. (Exited (Some 0) 40 ''hello'' [], f)"
        "\<lparr>fs = Dir (\<lambda>x. None), cwd = [], spawned = []\<rparr>" 40 "''hello''" "[]" "Dir (\<lambda>x. None)" 0,
     simplified]
  by blast

text \<open>
  The standard output is not always returned verbatim. When it is empty (the command
  \<open>true\<close> ends with status 0 and prints nothing), the tool's text is not the empty
  string. And when it is below the limit of 1 MB but passes it together with the
  standard error (2 characters of output, 1048576 of error, status 0), the tool's text
  is the \<open>ENOBUFS\<close> error text, not the output.
\<close>

theorem bash_empty_stdout_counterexample:
  "fst (getBashTool_execute (\<lambda>c f. (Exited (Some 0) 3 [] [], f))
     \<lparr>shell_command = ''true'', restart = None\<rparr>
     \<lparr>fs = Dir (\<lambda>x. None), cwd = [], spawned = []\<rparr>) \<noteq> Returned []
   \<and> fst (getBashTool_execute (\<lambda>c f. (Exited (Some 0) 3 ''ok'' (replicate 1048576 (CHR ''e'')), f))
     \<lparr>shell_command = ''make'', restart = None\<rparr>
     \<lparr>fs = Dir (\<lambda>x. None), cwd = [], spawned = []\<rparr>) \<noteq> Returned ''ok''"
  by (simp add: getBashTool_execute_def execSync_def)

text \<open>
  Claim C4, as the code has it. The tool never raises: every call resolves to a text.
  Whenever \<open>execSync\<close> throws, the text is \<open>Error: <message>\<close>, a line
  \<open>Stderr: <stderr>\<close> and a line \<open>Stdout: <stdout>\<close>. So it is for every child
  that ends with a non-zero status, runs beyond the timeout or passes the buffer limit:
  the text carries the message of the failure (buffer limit first, then timeout, then
  the exit status) and all that was read of the standard error and of the standard
  output; and so it is for a shell that cannot be started. The text is returned as an
  ordinary result: no error flag is set on it.
\<close>

theorem bash_failure_is_text:
  "(\<exists>s. fst (getBashTool_execute sh inp w) = Returned s
        \<and> \<not> isError (to_result i (fst (getBashTool_execute sh inp w))))
   \<and> (restart inp \<noteq> Some True
        \<and> execSync sh (shell_command inp) 30000 (1024 * 1024) w = (Inl e, w') \<longrightarrow>
      getBashTool_execute sh inp w
        = (Returned (''Error: '' @ message e
                     @ CHR 0x0A # ''Stderr: '' @ or_empty (err_stderr e)
                     @ CHR 0x0A # ''Stdout: '' @ or_empty (err_stdout e)), w'))
   \<and> (restart inp \<noteq> Some True
        \<and> sh (shell_command inp) (fs w) = (Exited status ms out err, fs')
        \<and> (status \<noteq> Some 0 \<or> 30000 < ms \<or> 1024 * 1024 < length out + length err) \<longrightarrow>
      fst (getBashTool_execute sh inp w)
        = Returned (''Error: ''
                    @ (if 1024 * 1024 < length out + length err
                       then ''spawnSync /bin/sh ENOBUFS''
                       else if 30000 < ms then ''spawnSync /bin/sh ETIMEDOUT''
                       else ''Command failed: '' @ shell_command inp
                            @ (if err \<noteq> [] then CHR 0x0A # err else []))
                    @ CHR 0x0A # ''Stderr: '' @ err @ CHR 0x0A # ''Stdout: '' @ out))
   \<and> (restart inp \<noteq> Some True
        \<and> sh (shell_command inp) (fs w) = (SpawnFailure msg, fs') \<longrightarrow>
      fst (getBashTool_execute sh inp w)
        = Returned (''Error: '' @ msg @ CHR 0x0A # ''Stderr: '' @ CHR 0x0A # ''Stdout: ''))"
proof (intro conjI impI)
  show "\<exists>s. fst (getBashTool_execute sh inp w) = Returned s
        \<and> \<not> isError (to_result i (fst (getBashTool_execute sh inp w)))"
    by (auto simp: getBashTool_execute_def to_result_def split: prod.splits sum.splits)
qed (auto simp: getBashTool_execute_def execSync_def or_empty_def)

text \<open>
  An instance: \<open>false\<close> ends with status 1 after writing \<open>out\<close> and
  \<open>boom\<close>.
\<close>

theorem bash_failure_is_text_witness:
  "fst (getBashTool_execute (\<lambda>c f. (Exited (Some 1) 5 ''out'' ''boom'', f))
     \<lparr>shell_command = ''false'', restart = None\<rparr>
     \<lparr>fs = Dir (\<lambda>x. None), cwd = [], spawned = []\<rparr>)
   = Returned (''Error: Command failed: false'' @ CHR 0x0A # ''boom''
               @ CHR 0x0A # ''Stderr: boom'' @ CHR 0x0A # ''Stdout: out'')"
  using bash_failure_is_text
    [where sh = "(\<lambda>c f. (Exited (Some 1) 5 ''out'' ''boom'', f))"
       and inp = "\<lparr>shell_command = ''false'', restart = None\<rparr>"
       and w = "\<lparr>fs = Dir (\<lambda>x. None), cwd = [], spawned = []\<rparr>"
       and status = "Some 1" and ms = 5 and out = "''out''" and err = "''boom''"
       and fs' = "Dir (\<lambda>x. None)"]
  by simp

text \<open>
  A failing command does not give a result with \<open>isError = True\<close>: the tool
  returns the error text as it returns the output of a successful command.
\<close>

theorem bash_failure_flag_counterexample:
  "\<not> isError (to_result 0 (fst (getBashTool_execute (\<lambda>c f. (Exited (Some 1) 5 ''out'' ''boom'', f))
     \<lparr>shell_command = ''false'', restart = None\<rparr>
     \<lparr>fs = Dir (\<lambda>x. None), cwd = [], spawned = []\<rparr>)))"
  by (simp add: getBashTool_execute_def execSync_def to_result_def)

section \<open>Lines of a text\<close>

text \<open>
  Splitting and joining lines: \<open>split\<close> undoes \<open>join\<close> up to the newlines
  inside the joined items, and \<open>join\<close> undoes \<open>split\<close>.
\<close>

lemma js_split_not_Nil: "js_split sep s \<noteq> []"
  by (induction s) (auto split: list.splits)

lemma js_split_append:
  "js_split sep (a @ sep # b) = js_split sep a @ js_split sep b"
proof (induction a)
  case Nil
  show ?case by simp
next
  case (Cons c a)
  obtain l ls where "js_split sep a = l # ls"
    using js_split_not_Nil [of sep a] by (cases "js_split sep a") auto
  with Cons show ?case by simp
qed

lemma js_split_free: "sep \<notin> set l \<Longrightarrow> js_split sep l = [l]"
  by (induction l) auto

lemma js_split_lines_free: "l \<in> set (js_split sep s) \<Longrightarrow> sep \<notin> set l"
proof (induction s arbitrary: l)
  case Nil
  then show ?case by simp
next
  case (Cons c s)
  obtain k ks where ks: "js_split sep s = k # ks"
    using js_split_not_Nil [of sep s] by (cases "js_split sep s") auto
  show ?case
  proof (cases "c = sep")
    case True
    with Cons.prems have "l = [] \<or> l \<in> set (js_split sep s)" by simp
    then show ?thesis using Cons.IH by auto
  next
    case False
    with Cons.prems ks have "l = c # k \<or> l \<in> set ks" by simp
    then show ?thesis
    proof
      assume "l = c # k"
      moreover have "sep \<notin> set k" using Cons.IH [of k] ks by simp
      ultimately show ?thesis using False by simp
    next
      assume "l \<in> set ks"
      then show ?thesis using Cons.IH [of l] ks by simp
    qed
  qed
qed

lemma js_split_join:
  "xs \<noteq> [] \<Longrightarrow> js_split sep (js_join sep xs) = concat (map (js_split sep) xs)"
proof (induction sep xs rule: js_join.induct)
  case (1 sep)
  then show ?case by simp
next
  case (2 sep l)
  show ?case by simp
next
  case (3 sep l m ls)
  then show ?case by (simp add: js_split_append)
qed

lemma concat_split_lines:
  "(\<And>l. l \<in> set xs \<Longrightarrow> sep \<notin> set l) \<Longrightarrow> concat (map (js_split sep) xs) = xs"
  by (induction xs) (simp_all add: js_split_free)

lemma js_join_split: "js_join sep (js_split sep s) = s"
proof (induction s)
  case Nil
  show ?case by simp
next
  case (Cons c s)
  obtain k ks where ks: "js_split sep s = k # ks"
    using js_split_not_Nil [of sep s] by (cases "js_split sep s") auto
  with Cons show ?case by (cases ks) auto
qed

lemma length_js_join:
  "length (js_join sep xs) = sum_list (map length xs) + (length xs - 1)"
  by (induction sep xs rule: js_join.induct) simp_all

lemma length_js_join_take: "length (js_join sep (take n xs)) \<le> length (js_join sep xs)"
proof -
  have "sum_list (map length xs) = sum_list (map length (take n xs)) + sum_list (map length (drop n xs))"
    by (metis append_take_drop_id map_append sum_list_append)
  then show ?thesis by (simp add: length_js_join)
qed

lemma length_js_join_drop: "length (js_join sep (drop n xs)) \<le> length (js_join sep xs)"
proof -
  have "sum_list (map length xs) = sum_list (map length (take n xs)) + sum_list (map length (drop n xs))"
    by (metis append_take_drop_id map_append sum_list_append)
  then show ?thesis by (simp add: length_js_join)
qed

lemma length_js_join_slice:
  "length (js_join sep (js_slice (js_split sep s) a b)) \<le> length s"
proof -
  have "length (js_join sep (js_slice (js_split sep s) a b))
        \<le> length (js_join sep (js_split sep s))"
    unfolding js_slice_def Let_def
    by (rule order_trans [OF length_js_join_take length_js_join_drop])
  then show ?thesis by (simp add: js_join_split)
qed

section \<open>The file editing tool: insert and view\<close>

lemma writeFileSync_existing:
  "lookup n p = Some (File c) \<Longrightarrow>
   \<exists>n'. writeFileSync n p t = Inr n' \<and> lookup n' p = Some (File t)"
proof (induction p arbitrary: n)
  case Nil
  then show ?case by simp
next
  case (Cons s ss)
  then obtain m where n: "n = Dir m" by (cases n) simp_all
  with Cons.prems obtain k where ms: "m s = Some k" and lk: "lookup k ss = Some (File c)"
    by (cases "m s") simp_all
  from Cons.IH [OF lk] obtain k' where "writeFileSync k ss t = Inr k'" "lookup k' ss = Some (File t)"
    by blast
  then show ?case by (simp add: n ms)
qed

text \<open>
  Claim C6, as the code has it. For an existing file, every number \<open>i\<close> and every
  text, \<open>insert\<close> increases the line count of the file by exactly the number of
  lines of the text. For \<open>0 \<le> i \<le>\<close> the line count of the file, the lines of the
  text start at 0-based line \<open>i\<close> of the result, before the line that was at index
  \<open>i\<close>.
\<close>

theorem insert_adds_lines:
  "command inp = ''insert'' \<Longrightarrow>
   lookup (fs w) (resolve (cwd w) (path inp)) = Some (File content) \<Longrightarrow>
   insert_line inp = Some i \<Longrightarrow> insert_text inp = Some t \<Longrightarrow>
   \<exists>w' content'.
      getTextEditorTool_execute inp w
        = (Returned (''Text inserted at line '' @ show_int i @ '' in '' @ path inp), w')
      \<and> lookup (fs w') (resolve (cwd w) (path inp)) = Some (File content')
      \<and> length (js_split (CHR 0x0A) content')
          = length (js_split (CHR 0x0A) content) + length (js_split (CHR 0x0A) t)
      \<and> (0 \<le> i \<and> nat i \<le> length (js_split (CHR 0x0A) content) \<longrightarrow>
           js_split (CHR 0x0A) content'
             = take (nat i) (js_split (CHR 0x0A) content) @ js_split (CHR 0x0A) t
               @ drop (nat i) (js_split (CHR 0x0A) content))"
proof -
  assume cmd: "command inp = ''insert''"
    and lk: "lookup (fs w) (resolve (cwd w) (path inp)) = Some (File content)"
    and il: "insert_line inp = Some i" and it: "insert_text inp = Some t"
  define L where "L = js_split (CHR 0x0A) content"
  define k where "k = rel_index i (length L)"
  define content' where "content' = js_join (CHR 0x0A) (js_splice L i t)"
  have free: "\<And>l. l \<in> set L \<Longrightarrow> CHR 0x0A \<notin> set l"
    unfolding L_def by (rule js_split_lines_free)
  have ft: "concat (map (js_split (CHR 0x0A)) (take k L)) = take k L"
    by (rule concat_split_lines) (auto dest: in_set_takeD free)
  have fd: "concat (map (js_split (CHR 0x0A)) (drop k L)) = drop k L"
    by (rule concat_split_lines) (auto dest: in_set_dropD free)
  have sp: "js_split (CHR 0x0A) content' = take k L @ js_split (CHR 0x0A) t @ drop k L"
    unfolding content'_def js_splice_def Let_def k_def [symmetric]
    by (subst js_split_join) (simp_all add: ft fd)
  have len: "length (js_split (CHR 0x0A) content') = length L + length (js_split (CHR 0x0A) t)"
  proof -
    have "length (take k L @ drop k L) = length L" by simp
    then show ?thesis unfolding sp by simp
  qed
  have kk: "0 \<le> i \<and> nat i \<le> length L \<Longrightarrow> k = nat i"
    by (auto simp: k_def rel_index_def)
  from writeFileSync_existing [OF lk, of content'] obtain fs1 where
    wr: "writeFileSync (fs w) (resolve (cwd w) (path inp)) content' = Inr fs1"
    and lk1: "lookup fs1 (resolve (cwd w) (path inp)) = Some (File content')" by blast
  have ex: "getTextEditorTool_execute inp w
        = (Returned (''Text inserted at line '' @ show_int i @ '' in '' @ path inp), w\<lparr>fs := fs1\<rparr>)"
    using lk wr
    by (simp add: getTextEditorTool_execute_def insert_op_def cmd il it existsSync_def
        readFileSync_def num_of_def content'_def L_def)
  show ?thesis
    apply (rule exI [of _ "w\<lparr>fs := fs1\<rparr>"])
    apply (rule exI [of _ content'])
    using ex lk1 len sp kk by (simp add: L_def)
qed


text \<open>
  An instance: inserting the two lines \<open>x\<close>, \<open>y\<close> at index 1 of the file with
  the lines \<open>a\<close>, \<open>b\<close>.
\<close>

theorem insert_adds_lines_witness:
  "\<exists>w' content'.
     getTextEditorTool_execute
       \<lparr>command = ''insert'', path = ''/f'', file_text = None, old_str = None, new_str = None,
        insert_line = Some 1, insert_text = Some (''x'' @ CHR 0x0A # ''y''), view_range = None\<rparr>
       \<lparr>fs = Dir ((\<lambda>x. None)(''f'' \<mapsto> File (''a'' @ CHR 0x0A # ''b''))), cwd = [], spawned = []\<rparr>
       = (Returned ''Text inserted at line 1 in /f'', w')
     \<and> lookup (fs w') [''f''] = Some (File content')
     \<and> js_split (CHR 0x0A) content' = [''a'', ''x'', ''y'', ''b'']"
proof -
  let ?inp = "\<lparr>command = ''insert'', path = ''/f'', file_text = None, old_str = None, new_str = None,
        insert_line = Some 1, insert_text = Some (''x'' @ CHR 0x0A # ''y''), view_range = None\<rparr>"
  let ?w = "\<lparr>fs = Dir ((\<lambda>x. None)(''f'' \<mapsto> File (''a'' @ CHR 0x0A # ''b''))), cwd = [], spawned = []\<rparr>"
  have r: "resolve [] ''/f'' = [''f'']" by (simp add: resolve_def)
  have lk: "lookup (fs ?w) (resolve (cwd ?w) (path ?inp)) = Some (File (''a'' @ CHR 0x0A # ''b''))"
    by (simp add: r)
  from insert_adds_lines [of ?inp ?w "''a'' @ CHR 0x0A # ''b''" 1 "''x'' @ CHR 0x0A # ''y''", OF _ lk]
  show ?thesis by (auto simp: r show_int_def)
qed

text \<open>
  For an index beyond the end of the file the text does not start at line \<open>i\<close>:
  \<open>splice\<close> clamps the index, so inserting \<open>x\<close> at index 5 of the one-line file
  \<open>a\<close> gives the lines \<open>a\<close>, \<open>x\<close>, with \<open>x\<close> at line 1 and no line 5.
\<close>

theorem insert_beyond_end_counterexample:
  "getTextEditorTool_execute
       \<lparr>command = ''insert'', path = ''/f'', file_text = None, old_str = None, new_str = None,
        insert_line = Some 5, insert_text = Some ''x'', view_range = None\<rparr>
       \<lparr>fs = Dir ((\<lambda>x. None)(''f'' \<mapsto> File ''a'')), cwd = [], spawned = []\<rparr>
     = (Returned ''Text inserted at line 5 in /f'',
        \<lparr>fs = Dir ((\<lambda>x. None)(''f'' \<mapsto> File (''a'' @ CHR 0x0A # ''x''))), cwd = [], spawned = []\<rparr>)
   \<and> js_split (CHR 0x0A) (''a'' @ CHR 0x0A # ''x'') = [''a'', ''x'']
   \<and> take 1 (drop 5 (js_split (CHR 0x0A) (''a'' @ CHR 0x0A # ''x''))) \<noteq> [''x'']"
  by (simp add: getTextEditorTool_execute_def insert_op_def resolve_def existsSync_def
      readFileSync_def js_splice_def rel_index_def num_of_def show_int_def)

text \<open>
  Claim C9, as the code has it. \<open>view\<close> of an existing file without
  \<open>view_range\<close> returns the whole content, however long it is, and never fails on a
  long file; with \<open>view_range\<close> it returns only the requested lines, which are
  never longer than the file. The tool applies no limit of its own to the text:
  \<open>maxCharacters\<close> is handed to the provider's tool definition only.
\<close>

theorem view_returns_whole_content:
  "command inp = ''view'' \<Longrightarrow>
   lookup (fs w) (resolve (cwd w) (path inp)) = Some (File content) \<Longrightarrow>
   (view_range inp = None \<longrightarrow> getTextEditorTool_execute inp w = (Returned content, w))
   \<and> (view_range inp = Some (a, b) \<longrightarrow>
        getTextEditorTool_execute inp w
          = (Returned (js_join (CHR 0x0A) (js_slice (js_split (CHR 0x0A) content) (a - 1) b)), w)
        \<and> length (js_join (CHR 0x0A) (js_slice (js_split (CHR 0x0A) content) (a - 1) b))
            \<le> length content)"
  by (simp add: getTextEditorTool_execute_def view_def existsSync_def readFileSync_def
      length_js_join_slice)

text \<open>
  An instance: a file of 60000 characters is returned whole.
\<close>

theorem view_returns_whole_content_witness:
  "getTextEditorTool_execute
       \<lparr>command = ''view'', path = ''/f'', file_text = None, old_str = None, new_str = None,
        insert_line = None, insert_text = None, view_range = None\<rparr>
       \<lparr>fs = Dir ((\<lambda>x. None)(''f'' \<mapsto> File (replicate 60000 (CHR ''a'')))), cwd = [], spawned = []\<rparr>
   = (Returned (replicate 60000 (CHR ''a'')),
       \<lparr>fs = Dir ((\<lambda>x. None)(''f'' \<mapsto> File (replicate 60000 (CHR ''a'')))), cwd = [], spawned = []\<rparr>)"
proof -
  let ?inp = "\<lparr>command = ''view'', path = ''/f'', file_text = None, old_str = None, new_str = None,
        insert_line = None, insert_text = None, view_range = None\<rparr>"
  let ?w = "\<lparr>fs = Dir ((\<lambda>x. None)(''f'' \<mapsto> File (replicate 60000 (CHR ''a'')))), cwd = [], spawned = []\<rparr>"
  have r: "resolve [] ''/f'' = [''f'']" by (simp add: resolve_def)
  have lk: "lookup (fs ?w) (resolve (cwd ?w) (path ?inp)) = Some (File (replicate 60000 (CHR ''a'')))"
    by (simp add: r)
  from view_returns_whole_content [of ?inp ?w "replicate 60000 (CHR ''a'')" 0 0, OF _ lk]
  show ?thesis by simp
qed

text \<open>
  The text that \<open>view\<close> returns can be longer than \<open>maxCharacters\<close>: a file of
  50001 characters is returned whole.
\<close>

theorem view_exceeds_maxCharacters_counterexample:
  "fst (getTextEditorTool_execute
       \<lparr>command = ''view'', path = ''/f'', file_text = None, old_str = None, new_str = None,
        insert_line = None, insert_text = None, view_range = None\<rparr>
       \<lparr>fs = Dir ((\<lambda>x. None)(''f'' \<mapsto> File (replicate 50001 (CHR ''a'')))), cwd = [], spawned = []\<rparr>)
     = Returned (replicate 50001 (CHR ''a''))
   \<and> maxCharacters < length (replicate 50001 (CHR ''a''))"
  by (simp add: getTextEditorTool_execute_def view_def resolve_def existsSync_def
      readFileSync_def maxCharacters_def)


section \<open>The file editing tool: str_replace\<close>

text \<open>
  \<open>indexOf\<close> finds the first position at which the pattern occurs, and none when it
  occurs nowhere.
\<close>

lemma js_indexOf_Some:
  "js_indexOf s pat = Some i \<Longrightarrow> s = take i s @ pat @ drop (i + length pat) s"
proof (induction s arbitrary: i)
  case Nil
  then show ?case by (simp split: if_splits)
next
  case (Cons c cs)
  show ?case
  proof (cases "prefix pat (c # cs)")
    case True
    with Cons.prems have "i = 0" by simp
    with True show ?thesis by (auto simp: prefix_def)
  next
    case False
    with Cons.prems obtain j where j: "js_indexOf cs pat = Some j" and i: "i = Suc j"
      by auto
    from Cons.IH [OF j] show ?thesis by (simp add: i)
  qed
qed

lemma js_indexOf_first:
  "js_indexOf s pat = Some i \<Longrightarrow> j < i \<Longrightarrow> \<not> prefix pat (drop j s)"
proof (induction s arbitrary: i j)
  case Nil
  then show ?case by (simp split: if_splits)
next
  case (Cons c cs)
  show ?case
  proof (cases "prefix pat (c # cs)")
    case True
    with Cons.prems show ?thesis by simp
  next
    case False
    with Cons.prems obtain k where k: "js_indexOf cs pat = Some k" and i: "i = Suc k"
      by auto
    show ?thesis
    proof (cases j)
      case 0
      with False show ?thesis by simp
    next
      case (Suc j')
      with Cons.prems(2) i have "j' < k" by simp
      from Cons.IH [OF k this] show ?thesis by (simp add: Suc)
    qed
  qed
qed

lemma js_indexOf_None:
  "js_indexOf s pat = None \<longleftrightarrow> (\<forall>j\<le>length s. \<not> prefix pat (drop j s))"
proof (induction s)
  case Nil
  show ?case by auto
next
  case (Cons c cs)
  show ?case
  proof (cases "prefix pat (c # cs)")
    case True
    then have "\<not> (\<forall>j\<le>length (c # cs). \<not> prefix pat (drop j (c # cs)))"
      by (auto intro: exI [of _ 0])
    with True show ?thesis by simp
  next
    case False
    have "(\<forall>j\<le>length (c # cs). \<not> prefix pat (drop j (c # cs)))
          \<longleftrightarrow> (\<forall>j\<le>length cs. \<not> prefix pat (drop j cs))"
    proof
      assume a: "\<forall>j\<le>length (c # cs). \<not> prefix pat (drop j (c # cs))"
      show "\<forall>j\<le>length cs. \<not> prefix pat (drop j cs)"
      proof (intro allI impI)
        fix j assume "j \<le> length cs"
        then have "\<not> prefix pat (drop (Suc j) (c # cs))" using a by (metis Suc_le_mono length_Cons)
        then show "\<not> prefix pat (drop j cs)" by simp
      qed
    next
      assume a: "\<forall>j\<le>length cs. \<not> prefix pat (drop j cs)"
      show "\<forall>j\<le>length (c # cs). \<not> prefix pat (drop j (c # cs))"
      proof (intro allI impI)
        fix j assume j: "j \<le> length (c # cs)"
        show "\<not> prefix pat (drop j (c # cs))"
        proof (cases j)
          case 0
          with False show ?thesis by simp
        next
          case (Suc j')
          with j a show ?thesis by simp
        qed
      qed
    qed
    with False Cons.IH show ?thesis by simp
  qed
qed

lemma occurrences_zero:
  "occurrences s pat = 0 \<longleftrightarrow> \<not> js_includes s pat"
proof -
  have "occurrences s pat = 0 \<longleftrightarrow> (\<forall>j\<le>length s. \<not> prefix pat (drop j s))"
    by (auto simp: occurrences_def filter_empty_conv less_Suc_eq_le)
  then show ?thesis by (simp add: js_includes_def js_indexOf_None)
qed

lemma getSubstitution_plain:
  "CHR ''$'' \<notin> set rep \<Longrightarrow> getSubstitution matched str pos rep = rep"
  by (induction matched str pos rep rule: getSubstitution.induct) auto

lemma js_replace_plain:
  assumes "js_indexOf s pat = Some i" and "CHR ''$'' \<notin> set rep"
  shows "js_replace s pat rep = take i s @ rep @ drop (i + length pat) s"
    and "length (js_replace s pat rep) + length pat = length s + length rep"
proof -
  show r: "js_replace s pat rep = take i s @ rep @ drop (i + length pat) s"
    using assms by (simp add: js_replace_def getSubstitution_plain)
  have "length s = length (take i s @ pat @ drop (i + length pat) s)"
    using js_indexOf_Some [OF assms(1)] by simp
  then show "length (js_replace s pat rep) + length pat = length s + length rep"
    unfolding r by simp
qed

text \<open>
  What \<open>str_replace\<close> does as the specification says: with no occurrence of
  \<open>old_str\<close> the call returns the error text and the file system is unchanged; and
  with a \<open>new_str\<close> that has no dollar sign, the first occurrence is replaced by
  \<open>new_str\<close> and the length changes by the difference of the two lengths.
\<close>

lemma str_replace_absent:
  "command inp = ''str_replace'' \<Longrightarrow>
   lookup (fs w) (resolve (cwd w) (path inp)) = Some (File content) \<Longrightarrow>
   occurrences content (str_of (old_str inp)) = 0 \<Longrightarrow>
   getTextEditorTool_execute inp w = (Returned (''Error: old_str not found in '' @ path inp), w)"
  by (simp add: getTextEditorTool_execute_def str_replace_def existsSync_def readFileSync_def
      occurrences_zero)

lemma str_replace_without_dollar:
  assumes "command inp = ''str_replace''"
    and "lookup (fs w) (resolve (cwd w) (path inp)) = Some (File content)"
    and "old_str inp = Some old" and "new_str inp = Some new"
    and "js_indexOf content old = Some i" and "CHR ''$'' \<notin> set new"
  shows "\<exists>w'. getTextEditorTool_execute inp w = (Returned (''File updated: '' @ path inp), w')
      \<and> lookup (fs w') (resolve (cwd w) (path inp))
          = Some (File (take i content @ new @ drop (i + length old) content))
      \<and> length (take i content @ new @ drop (i + length old) content) + length old
          = length content + length new"
proof -
  let ?u = "take i content @ new @ drop (i + length old) content"
  have u: "js_replace content old new = ?u"
    and l: "length (js_replace content old new) + length old = length content + length new"
    using js_replace_plain [OF assms(5) assms(6)] by simp_all
  from writeFileSync_existing [OF assms(2), of ?u] obtain fs1 where
    wr: "writeFileSync (fs w) (resolve (cwd w) (path inp)) ?u = Inr fs1"
    and lk: "lookup fs1 (resolve (cwd w) (path inp)) = Some (File ?u)" by blast
  have "getTextEditorTool_execute inp w = (Returned (''File updated: '' @ path inp), w\<lparr>fs := fs1\<rparr>)"
    using assms(1-5) wr
    by (simp add: getTextEditorTool_execute_def str_replace_def existsSync_def readFileSync_def
        js_includes_def str_of_def u)
  with lk l show ?thesis unfolding u by (intro exI [of _ "w\<lparr>fs := fs1\<rparr>"]) simp
qed

text \<open>
  Claim C3, at an input where the code departs from it. \<open>String.prototype.replace\<close>
  reads \<open>$$\<close> in the replacement as one dollar sign (and \<open>$&\<close>, \<open>$`\<close>,
  \<open>$'\<close> as pieces of the subject). The file \<open>title = TEXT\<close> has exactly one
  occurrence of \<open>TEXT\<close>; replacing it by \<open>$$x^2$$\<close> writes
  \<open>title = $x^2$\<close>, which is not the content with \<open>TEXT\<close> replaced by the
  new text, and whose length is not the old length changed by the difference of the
  lengths of the two texts.
\<close>

theorem str_replace_dollar_divergence:
  "occurrences ''title = TEXT'' ''TEXT'' = 1
   \<and> getTextEditorTool_execute
       \<lparr>command = ''str_replace'', path = ''/scene.py'', file_text = None,
        old_str = Some ''TEXT'', new_str = Some ''$$x^2$$'',
        insert_line = None, insert_text = None, view_range = None\<rparr>
       \<lparr>fs = Dir ((\<lambda>x. None)(''scene.py'' \<mapsto> File ''title = TEXT'')), cwd = [], spawned = []\<rparr>
     = (Returned ''File updated: /scene.py'',
        \<lparr>fs = Dir ((\<lambda>x. None)(''scene.py'' \<mapsto> File ''title = $x^2$'')), cwd = [], spawned = []\<rparr>)
   \<and> ''title = $x^2$'' \<noteq> ''title = $$x^2$$''
   \<and> length ''title = $x^2$'' + length ''TEXT'' \<noteq> length ''title = TEXT'' + length ''$$x^2$$''"
proof -
  have o: "occurrences ''title = TEXT'' ''TEXT'' = 1"
    by (simp add: occurrences_def upt_rec)
  have r: "resolve [] ''/scene.py'' = [''scene.py'']" by (simp add: resolve_def)
  have i: "js_indexOf ''title = TEXT'' ''TEXT'' = Some 8" by simp
  have u: "js_replace ''title = TEXT'' ''TEXT'' ''$$x^2$$'' = ''title = $x^2$''"
    by (simp add: js_replace_def i)
  show ?thesis
    by (simp add: o getTextEditorTool_execute_def str_replace_def r existsSync_def
        readFileSync_def js_includes_def i u str_of_def)
qed


section \<open>The agent loop and the request handler\<close>





















end
